theory Spec2Isabelle
  imports Main "HOL-Library.Sublist"
begin

section \<open>JavaScript string primitives used by the scanner\<close>

text \<open>
  Strings are lists of characters; an index counts characters from 0.
  \<open>indexOf\<close> is \<open>String.prototype.indexOf\<close> with one argument: the position of the first
  occurrence of the pattern, or \<open>-1\<close> when there is none.
\<close>

fun indexOf :: "string \<Rightarrow> string \<Rightarrow> int" where
  "indexOf [] pat = (if pat = [] then 0 else - 1)"
| "indexOf (c # cs) pat =
     (if prefix pat (c # cs) then 0
      else (let r = indexOf cs pat in if r < 0 then - 1 else r + 1))"

text \<open>
  \<open>substring\<close> with one argument: the suffix from \<open>start\<close>, where a negative start counts
  as 0 and a start beyond the end gives the empty string.
\<close>

definition substring :: "string \<Rightarrow> int \<Rightarrow> string" where
  "substring s start = drop (nat (max 0 start)) s"

text \<open>\<open>content.split('\n')\<close>: the pieces between line feeds; never the empty list.\<close>

fun split_nl :: "string \<Rightarrow> string list" where
  "split_nl [] = [] # []"
| "split_nl (c # cs) =
     (if c = CHR 0x0A then [] # split_nl cs
      else (case split_nl cs of [] \<Rightarrow> [c] # [] | l # ls \<Rightarrow> (c # l) # ls))"

section \<open>Issue.ts\<close>

datatype EIssueType = Error | Exception | Crash

text \<open>
  The class \<open>Issue\<close>. Its field \<open>id\<close> is a random UUID drawn from the \<open>uuid\<close> library by
  the constructor; it is the one part of an Issue that no pure function computes, nothing in
  the scanner reads it, and it is left out of the record. The field \<open>context\<close> is spelt
  \<open>context'\<close> here.
\<close>

record Issue =
  type :: EIssueType
  message :: string
  rawLogs :: "string list"
  stackTrace :: "string list"
  context' :: "string list"
  source :: string
  severity :: string

fun getSeverityFromType :: "EIssueType \<Rightarrow> string" where
  "getSeverityFromType Crash = ''critical''"
| "getSeverityFromType Exception = ''high''"
| "getSeverityFromType Error = ''medium''"

definition Issue_new :: "EIssueType \<Rightarrow> string \<Rightarrow> Issue" where
  "Issue_new t msg =
     \<lparr> type = t, message = msg, rawLogs = [], stackTrace = [], context' = [],
       source = [], severity = getSeverityFromType t \<rparr>"

definition addLogLine :: "Issue \<Rightarrow> string \<Rightarrow> Issue" where
  "addLogLine x line = x\<lparr>rawLogs := rawLogs x @ [line]\<rparr>"

definition addStacktraceLine :: "Issue \<Rightarrow> string \<Rightarrow> Issue" where
  "addStacktraceLine x stacktrace = x\<lparr>stackTrace := stackTrace x @ [stacktrace]\<rparr>"

section \<open>IssueDetector.ts\<close>

text \<open>
  The repository holds two texts of this file. The one modelled is the one that fits the
  class \<open>Issue\<close> above; the other calls \<open>setIssueType\<close>, which that class does not have,
  to make the kind Exception where a stack frame is found, and adds the frame to
  \<open>stackTrace\<close> also while the detector is active.
\<close>

datatype EIssueDetectorState = None_s | Activated | Finished

text \<open>
  What a method can throw: a \<open>TypeError\<close> from calling a method on \<open>undefined\<close>, and the
  \<open>Error("issue not exist")\<close> of \<open>pickIssue\<close>. A method of an object is a function from the
  object to an outcome and the object afterwards; the object is returned on a throw as
  well, since what was written to it before the throw stays written.
\<close>

datatype error = TypeError | IssueNotExist

definition PUERTS_ERROR_KEYWORD :: string where
  "PUERTS_ERROR_KEYWORD = ''Puerts: Error:''"

definition PUERTS_DEMO_PTR :: string where
  "PUERTS_DEMO_PTR = ''(0x0x300b08e68)''"

definition PUERTS_STACK_KEYWORD :: string where
  "PUERTS_STACK_KEYWORD = ''    at ''"

record PuertsExceptionDetector =
  issue :: "Issue option"
  state :: EIssueDetectorState

definition PuertsExceptionDetector_new :: PuertsExceptionDetector where
  "PuertsExceptionDetector_new = \<lparr> issue = None, state = None_s \<rparr>"

definition getMessageFromFirstLogLine :: "string \<Rightarrow> string" where
  "getMessageFromFirstLogLine line =
     (let msgIndex = indexOf line PUERTS_ERROR_KEYWORD
                       + int (length PUERTS_ERROR_KEYWORD) + int (length PUERTS_DEMO_PTR)
      in substring line msgIndex)"

definition isLogIndicateFinished :: "string \<Rightarrow> bool" where
  "isLogIndicateFinished line = (if indexOf line PUERTS_ERROR_KEYWORD > 0 then True else False)"

definition receiveLine ::
  "PuertsExceptionDetector \<Rightarrow> string \<Rightarrow> (error + EIssueDetectorState) \<times> PuertsExceptionDetector"
where
  "receiveLine d line =
     (if state d = None_s then
        (if indexOf line PUERTS_ERROR_KEYWORD > 0 then
           (let issue0 = Issue_new Error (getMessageFromFirstLogLine line);
                issue1 = addLogLine issue0 line;
                stackKeywordIndex = indexOf line PUERTS_STACK_KEYWORD;
                issue2 = (if stackKeywordIndex \<ge> 0
                          then addStacktraceLine issue1 (substring line stackKeywordIndex)
                          else issue1)
            in (Inr Activated, \<lparr> issue = Some issue2, state = Activated \<rparr>))
         else (Inr None_s, d))
      else
        (if isLogIndicateFinished line then
           (case issue d of
              None \<Rightarrow> (Inl TypeError, d)
            | Some x \<Rightarrow> (Inr Finished, d\<lparr>issue := Some (addLogLine x line)\<rparr>))
         else (Inr Activated, d)))"

definition pickIssue :: "PuertsExceptionDetector \<Rightarrow> (error + Issue) \<times> PuertsExceptionDetector" where
  "pickIssue d =
     (case issue d of
        None \<Rightarrow> (Inl IssueNotExist, d)
      | Some x \<Rightarrow> (Inr x, d\<lparr>issue := None, state := None_s\<rparr>))"

definition getState :: "PuertsExceptionDetector \<Rightarrow> EIssueDetectorState" where
  "getState d = state d"

section \<open>LogScanner.ts\<close>

text \<open>
  The scanner owns its registry \<open>issueDetectors\<close>; \<open>activatedIssueDetector\<close> is either
  \<open>null\<close> or a reference to one of the registry's detectors, which is its position in the
  registry here, so that a call through the reference changes the registry's detector.
\<close>

record LogScanner =
  issueDetectors :: "PuertsExceptionDetector list"
  activatedIssueDetector :: "nat option"

definition LogScanner_new :: LogScanner where
  "LogScanner_new =
     \<lparr> issueDetectors = [PuertsExceptionDetector_new], activatedIssueDetector = None \<rparr>"

text \<open>
  The inner \<open>for (const detector of this.issueDetectors)\<close>: every detector receives the line
  in turn until one answers \<open>Activated\<close>; the result is the position of that detector, to
  be bound as the active one, or \<open>None\<close> when the loop ran to its end.
\<close>

fun probe ::
  "PuertsExceptionDetector list \<Rightarrow> string \<Rightarrow> (error + nat option) \<times> PuertsExceptionDetector list"
where
  "probe [] line = (Inr None, [])"
| "probe (detector # ds) line =
     (case receiveLine detector line of
        (Inl e, detector') \<Rightarrow> (Inl e, detector' # ds)
      | (Inr st, detector') \<Rightarrow>
          if st = Activated then (Inr (Some 0), detector' # ds)
          else (case probe ds line of
                  (Inl e, ds') \<Rightarrow> (Inl e, detector' # ds')
                | (Inr r, ds') \<Rightarrow> (Inr (map_option Suc r), detector' # ds')))"

text \<open>
  The body of the outer \<open>for\<close> loop at cursor \<open>i\<close>, up to but not including the loop's
  \<open>i++\<close>: it yields the cursor as the body leaves it (decremented on \<open>Finished\<close>) and the
  issues pushed so far. The body runs only under the loop's test \<open>i < lines.length\<close>, and
  the cursor, which starts at 0 and is incremented after every decrement, is never negative
  there: \<open>lines[i]\<close> is a line of the content.
\<close>

definition loop_body ::
  "string list \<Rightarrow> int \<Rightarrow> LogScanner \<Rightarrow> Issue list \<Rightarrow> (error + int \<times> Issue list) \<times> LogScanner"
where
  "loop_body lines i this issues =
     (let line = lines ! nat i in
      case activatedIssueDetector this of
        Some k \<Rightarrow>
          (case receiveLine (issueDetectors this ! k) line of
             (Inl e, d') \<Rightarrow> (Inl e, this\<lparr>issueDetectors := (issueDetectors this)[k := d']\<rparr>)
           | (Inr Activated, d') \<Rightarrow>
               (Inr (i, issues), this\<lparr>issueDetectors := (issueDetectors this)[k := d']\<rparr>)
           | (Inr Finished, d') \<Rightarrow>
               (case pickIssue d' of
                  (Inl e, d'') \<Rightarrow> (Inl e, this\<lparr>issueDetectors := (issueDetectors this)[k := d'']\<rparr>)
                | (Inr x, d'') \<Rightarrow>
                    (Inr (i - 1, issues @ [x]),
                     this\<lparr>issueDetectors := (issueDetectors this)[k := d''],
                          activatedIssueDetector := None\<rparr>))
           | (Inr None_s, d') \<Rightarrow>
               (Inr (i, issues), this\<lparr>issueDetectors := (issueDetectors this)[k := d']\<rparr>))
      | None \<Rightarrow>
          (case probe (issueDetectors this) line of
             (Inl e, ds') \<Rightarrow> (Inl e, this\<lparr>issueDetectors := ds'\<rparr>)
           | (Inr None, ds') \<Rightarrow> (Inr (i, issues), this\<lparr>issueDetectors := ds'\<rparr>)
           | (Inr (Some k), ds') \<Rightarrow>
               (Inr (i, issues),
                this\<lparr>issueDetectors := ds', activatedIssueDetector := Some k\<rparr>)))"

text \<open>
  The cursor moves by the body's decrement and the loop's increment; what bounds the number
  of iterations is twice the number of lines left, plus one while a detector is bound.
\<close>

definition loop_measure :: "string list \<Rightarrow> int \<Rightarrow> LogScanner \<Rightarrow> nat" where
  "loop_measure lines i this =
     nat (2 * (int (length lines) - i))
       + (case activatedIssueDetector this of None \<Rightarrow> 0 | Some k \<Rightarrow> 1)"

text \<open>
  \<open>for (let i = 0; i < lines.length; i++)\<close> from cursor \<open>i\<close> on. The outcome is the array
  \<open>issues\<close> or the error thrown, and the scanner as the loop leaves it.
\<close>

function loop ::
  "string list \<Rightarrow> int \<Rightarrow> LogScanner \<Rightarrow> Issue list \<Rightarrow> (error + Issue list) \<times> LogScanner"
where
  "loop lines i this issues =
     (if i < int (length lines) then
        (case loop_body lines i this issues of
           (Inl e, this') \<Rightarrow> (Inl e, this')
         | (Inr (i', issues'), this') \<Rightarrow> loop lines (i' + 1) this' issues')
      else (Inr issues, this))"
  by pat_completeness auto
termination
proof (relation "measure (\<lambda>(lines, i, this, issues). loop_measure lines i this)")
  show "wf (measure (\<lambda>(lines, i, this, issues). loop_measure lines i this))"
    by simp
next
  fix lines :: "string list" and i :: int and this :: LogScanner and issues :: "Issue list"
    and x1 x2 y x21 x22
  assume less: "i < int (length lines)"
    and "(x1, x2) = loop_body lines i this issues"
    and "x1 = Inr y" and "(x21, x22) = y"
  then have "loop_body lines i this issues = (Inr (x21, x22), x2)"
    by simp
  with less have "loop_measure lines (x21 + 1) x2 < loop_measure lines i this"
    by (auto simp: loop_body_def loop_measure_def Let_def
             split: option.splits prod.splits sum.splits EIssueDetectorState.splits)
  then show "((lines, x21 + 1, x2, x22), lines, i, this, issues)
          \<in> measure (\<lambda>(lines, i, this, issues). loop_measure lines i this)"
    by simp
qed

declare loop.simps [simp del]

definition scanLogContent :: "LogScanner \<Rightarrow> string \<Rightarrow> (error + Issue list) \<times> LogScanner" where
  "scanLogContent this content = (let lines = split_nl content in loop lines 0 this [])"

text \<open>
  What \<open>scanLogFile\<close> and \<open>scanLogDirectory\<close> ask of \<open>path\<close> and \<open>fs-extra\<close>. A read that
  rejects is \<open>None\<close>; both methods catch it and return the empty array.
\<close>

record FileSystem =
  path_normalize :: "string \<Rightarrow> string"
  path_join :: "string \<Rightarrow> string \<Rightarrow> string"
  pathExists :: "string \<Rightarrow> bool"
  readFile :: "string \<Rightarrow> string option"
  readdir :: "string \<Rightarrow> string list option"

definition scanLogFile :: "FileSystem \<Rightarrow> LogScanner \<Rightarrow> string \<Rightarrow> Issue list \<times> LogScanner" where
  "scanLogFile fs this filePath =
     (let normalizedPath = path_normalize fs filePath in
      if \<not> pathExists fs normalizedPath then ([], this)
      else (case readFile fs normalizedPath of
              None \<Rightarrow> ([], this)
            | Some content \<Rightarrow>
                (case scanLogContent this content of
                   (Inl e, this') \<Rightarrow> ([], this')
                 | (Inr issues, this') \<Rightarrow>
                     (map (\<lambda>issue. issue\<lparr>source := normalizedPath\<rparr>) issues, this'))))"

text \<open>The \<open>for (const file of logFiles)\<close> of \<open>scanLogDirectory\<close>.\<close>

fun scanLogFiles ::
  "FileSystem \<Rightarrow> LogScanner \<Rightarrow> string \<Rightarrow> string list \<Rightarrow> Issue list \<Rightarrow> Issue list \<times> LogScanner"
where
  "scanLogFiles fs this dirPath [] allIssues = (allIssues, this)"
| "scanLogFiles fs this dirPath (file # logFiles) allIssues =
     (let filePath = path_join fs dirPath file in
      case scanLogFile fs this filePath of
        (issues, this') \<Rightarrow> scanLogFiles fs this' dirPath logFiles (allIssues @ issues))"

definition scanLogDirectory ::
  "FileSystem \<Rightarrow> LogScanner \<Rightarrow> string \<Rightarrow> Issue list \<times> LogScanner"
where
  "scanLogDirectory fs this dirPath =
     (case readdir fs dirPath of
        None \<Rightarrow> ([], this)
      | Some files \<Rightarrow>
          (let logFiles = filter (suffix ''.log'') files
           in scanLogFiles fs this dirPath logFiles []))"

text \<open>
  The loop, iteration by iteration: the cursor, the scanner and \<open>issues\<close> as they stand
  after \<open>n\<close> more runs of the loop's body and increment; \<open>None\<close> when the loop has ended or
  thrown before that.
\<close>

fun loop_iter ::
  "nat \<Rightarrow> string list \<Rightarrow> int \<times> LogScanner \<times> Issue list \<Rightarrow> (int \<times> LogScanner \<times> Issue list) option"
where
  "loop_iter 0 lines c = Some c"
| "loop_iter (Suc n) lines (i, this, issues) =
     (if i < int (length lines) then
        (case loop_body lines i this issues of
           (Inl e, this') \<Rightarrow> None
         | (Inr (i', issues'), this') \<Rightarrow> loop_iter n lines (i' + 1, this', issues'))
      else None)"

section \<open>The scanner's invariant\<close>

text \<open>
  A detector is idle when it is as its constructor leaves it. The scanner is consistent when
  an empty slot goes with a registry of idle detectors, and a bound slot names a detector of
  the registry that is activated and owns an issue, all others being idle.
\<close>

definition idle :: "PuertsExceptionDetector \<Rightarrow> bool" where
  "idle d = (state d = None_s \<and> issue d = None)"

definition scanner_inv :: "LogScanner \<Rightarrow> bool" where
  "scanner_inv this =
     (case activatedIssueDetector this of
        None \<Rightarrow> list_all idle (issueDetectors this)
      | Some k \<Rightarrow>
          k < length (issueDetectors this)
          \<and> state (issueDetectors this ! k) = Activated
          \<and> issue (issueDetectors this ! k) \<noteq> None
          \<and> list_all idle (take k (issueDetectors this))
          \<and> list_all idle (drop (Suc k) (issueDetectors this)))"

section \<open>A directory of two logs\<close>

text \<open>
  A directory \<open>logs\<close> with \<open>a.log\<close>, \<open>b.log\<close> and a file that is no log; each log is one
  line with the keyword.
\<close>

definition two_logs :: FileSystem where
  "two_logs =
     \<lparr> path_normalize = (\<lambda>p. p),
       path_join = (\<lambda>dir file. dir @ ''/'' @ file),
       pathExists = (\<lambda>p. p \<in> {''logs/a.log'', ''logs/b.log''}),
       readFile = [''logs/a.log'' \<mapsto> ''[JS] Puerts: Error:(0x0x300b08e68) first'',
                   ''logs/b.log'' \<mapsto> ''[JS] Puerts: Error:(0x0x300b08e68) second''],
       readdir = [''logs'' \<mapsto> [''a.log'', ''b.log'', ''readme.txt'']] \<rparr>"

section \<open>Detector and registry: basic facts\<close>

lemma indexOf_prefix: "prefix pat line \<Longrightarrow> indexOf line pat = 0"
  by (cases line) simp_all

lemma receiveLine_idle_nomatch:
  "idle d \<Longrightarrow> \<not> 0 < indexOf line PUERTS_ERROR_KEYWORD \<Longrightarrow> receiveLine d line = (Inr None_s, d)"
  by (simp add: receiveLine_def idle_def)

lemma receiveLine_idle_match:
  "idle d \<Longrightarrow> 0 < indexOf line PUERTS_ERROR_KEYWORD \<Longrightarrow>
     \<exists>x. receiveLine d line = (Inr Activated, \<lparr>issue = Some x, state = Activated\<rparr>)"
  by (simp add: receiveLine_def idle_def Let_def)

lemma probe_idle_nomatch:
  "list_all idle ds \<Longrightarrow> \<not> 0 < indexOf line PUERTS_ERROR_KEYWORD \<Longrightarrow> probe ds line = (Inr None, ds)"
  by (induction ds) (simp_all add: receiveLine_idle_nomatch)

lemma probe_idle_match:
  "list_all idle (d # ds) \<Longrightarrow> 0 < indexOf line PUERTS_ERROR_KEYWORD \<Longrightarrow>
     \<exists>x. probe (d # ds) line = (Inr (Some 0), \<lparr>issue = Some x, state = Activated\<rparr> # ds)"
  using receiveLine_idle_match [of d line] by auto

lemma list_all_update:
  "k < length ds \<Longrightarrow> list_all P (take k ds) \<Longrightarrow> list_all P (drop (Suc k) ds) \<Longrightarrow> P d
     \<Longrightarrow> list_all P (ds[k := d])"
  by (simp add: upd_conv_take_nth_drop)

section \<open>The loop: one iteration, the invariant, the end\<close>

lemma loop_done: "\<not> i < int (length lines) \<Longrightarrow> loop lines i s acc = (Inr acc, s)"
  by (subst loop.simps) simp

lemma loop_step:
  "i < int (length lines) \<Longrightarrow> loop_body lines i s acc = (Inr (i', acc'), s')
     \<Longrightarrow> loop lines i s acc = loop lines (i' + 1) s' acc'"
  by (subst loop.simps) simp

lemma loop_err:
  "i < int (length lines) \<Longrightarrow> loop_body lines i s acc = (Inl e, s')
     \<Longrightarrow> loop lines i s acc = (Inl e, s')"
  by (subst loop.simps) simp

lemma loop_body_inv:
  assumes "scanner_inv s"
  shows "\<exists>i' acc' s'. loop_body lines i s acc = (Inr (i', acc'), s') \<and> scanner_inv s'"
proof (cases "activatedIssueDetector s")
  case None
  then have idl: "list_all idle (issueDetectors s)"
    using assms by (simp add: scanner_inv_def)
  show ?thesis
  proof (cases "0 < indexOf (lines ! nat i) PUERTS_ERROR_KEYWORD")
    case True
    show ?thesis
    proof (cases "issueDetectors s")
      case Nil
      then show ?thesis using None assms by (simp add: loop_body_def scanner_inv_def)
    next
      case (Cons d ds)
      with idl True obtain x where
        "probe (issueDetectors s) (lines ! nat i)
           = (Inr (Some 0), \<lparr>issue = Some x, state = Activated\<rparr> # ds)"
        using probe_idle_match [of d ds "lines ! nat i"] by auto
      then show ?thesis using None idl Cons
        by (simp add: loop_body_def scanner_inv_def)
    qed
  next
    case False
    then show ?thesis using None idl assms
      by (simp add: loop_body_def probe_idle_nomatch)
  qed
next
  case (Some k)
  then show ?thesis using assms
    by (auto simp: loop_body_def scanner_inv_def receiveLine_def isLogIndicateFinished_def
          pickIssue_def Let_def intro!: list_all_update) (simp add: idle_def)
qed

text \<open>The invariant rule of the loop: what every iteration keeps holds when the loop ends.\<close>

lemma loop_rule:
  assumes init: "I i s acc"
    and step: "\<And>i s acc. I i s acc \<Longrightarrow> i < int (length lines) \<Longrightarrow>
                 \<exists>i' acc' s'. loop_body lines i s acc = (Inr (i', acc'), s') \<and> I (i' + 1) s' acc'"
  shows "\<exists>issues s' i'. loop lines i s acc = (Inr issues, s') \<and> I i' s' issues
           \<and> \<not> i' < int (length lines)"
  using init step
proof (induction lines i s acc rule: loop.induct)
  case (1 lines i this issues)
  show ?case
  proof (cases "i < int (length lines)")
    case True
    from "1.prems"(2) [OF "1.prems"(1) True] obtain i' acc' s' where
      b: "loop_body lines i this issues = (Inr (i', acc'), s')" and I': "I (i' + 1) s' acc'"
      by blast
    from "1.IH" [OF True b [symmetric] refl refl I' "1.prems"(2)]
    show ?thesis using loop_step [OF True b] by simp
  next
    case False
    then show ?thesis using "1.prems"(1) by (auto simp: loop_done)
  qed
qed

lemma loop_body_measure:
  assumes "loop_body lines i s acc = (Inr (i', acc'), s')" and "i < int (length lines)"
  shows "loop_measure lines (i' + 1) s' < loop_measure lines i s"
  using assms
  by (auto simp: loop_body_def loop_measure_def Let_def
           split: option.splits prod.splits sum.splits EIssueDetectorState.splits)

lemma loop_iter_measure:
  "loop_iter n lines (i, s, acc) = Some (i', s', acc')
     \<Longrightarrow> loop_measure lines i' s' + n \<le> loop_measure lines i s"
proof (induction n arbitrary: i s acc)
  case 0
  then show ?case by simp
next
  case (Suc n)
  from Suc.prems have less: "i < int (length lines)"
    by (simp split: if_splits)
  with Suc.prems obtain i1 acc1 s1 where
    b: "loop_body lines i s acc = (Inr (i1, acc1), s1)"
    and r: "loop_iter n lines (i1 + 1, s1, acc1) = Some (i', s', acc')"
    by (auto split: prod.splits sum.splits)
  from Suc.IH [OF r] loop_body_measure [OF b less] show ?case by simp
qed

lemma loop_iter_inv:
  "scanner_inv s \<Longrightarrow> loop_iter n lines (i, s, acc) = Some (i', s', acc') \<Longrightarrow> scanner_inv s'"
proof (induction n arbitrary: i s acc)
  case 0
  then show ?case by simp
next
  case (Suc n)
  from loop_body_inv [OF Suc.prems(1), of lines i acc] obtain i1 acc1 s1 where
    b: "loop_body lines i s acc = (Inr (i1, acc1), s1)" and inv1: "scanner_inv s1"
    by blast
  with Suc.prems(2) have "loop_iter n lines (i1 + 1, s1, acc1) = Some (i', s', acc')"
    by (simp split: if_splits)
  from Suc.IH [OF inv1 this] show ?case .
qed

section \<open>The registry under the invariant\<close>

lemma filter_idle: "list_all idle ds \<Longrightarrow> filter (\<lambda>d. getState d = Activated) ds = []"
  by (induction ds) (simp_all add: idle_def getState_def)

lemma scanner_inv_active:
  assumes "scanner_inv s"
  shows "filter (\<lambda>d. getState d = Activated) (issueDetectors s)
           = (case activatedIssueDetector s of None \<Rightarrow> [] | Some k \<Rightarrow> [issueDetectors s ! k])"
proof (cases "activatedIssueDetector s")
  case None
  then show ?thesis using assms by (simp add: scanner_inv_def filter_idle)
next
  case (Some k)
  with assms have k: "k < length (issueDetectors s)"
    and a: "state (issueDetectors s ! k) = Activated"
    and t: "list_all idle (take k (issueDetectors s))"
    and d: "list_all idle (drop (Suc k) (issueDetectors s))"
    by (simp_all add: scanner_inv_def)
  have "filter (\<lambda>d. getState d = Activated)
          (take k (issueDetectors s) @ issueDetectors s ! k # drop (Suc k) (issueDetectors s))
        = [issueDetectors s ! k]"
  proof -
    from a have "getState (issueDetectors s ! k) = Activated" by (simp add: getState_def)
    then show ?thesis by (simp add: filter_idle [OF t] filter_idle [OF d])
  qed
  then show ?thesis using Some id_take_nth_drop [OF k] by simp
qed

lemma probe_first:
  "probe ds line = (Inr (Some k), ds') \<Longrightarrow>
     k < length ds \<and> fst (receiveLine (ds ! k) line) = Inr Activated
     \<and> (\<forall>j<k. fst (receiveLine (ds ! j) line) \<noteq> Inr Activated)
     \<and> drop (Suc k) ds' = drop (Suc k) ds"
proof (induction ds arbitrary: k ds')
  case Nil
  then show ?case by simp
next
  case (Cons d ds)
  obtain r d1 where rl: "receiveLine d line = (r, d1)" by (cases "receiveLine d line")
  show ?case
  proof (cases "r = Inr Activated")
    case True
    with Cons.prems rl show ?thesis by auto
  next
    case False
    with Cons.prems rl obtain k0 ds0 where
      p: "probe ds line = (Inr (Some k0), ds0)" and k: "k = Suc k0" and ds': "ds' = d1 # ds0"
      by (auto split: sum.splits prod.splits option.splits if_splits)
    from Cons.IH [OF p] False rl k ds' show ?thesis
      by (auto simp: less_Suc_eq_0_disj)
  qed
qed

section \<open>The error of pickIssue is never thrown by the loop\<close>

lemma probe_not_IssueNotExist: "fst (probe ds line) \<noteq> Inl IssueNotExist"
  by (induction ds)
     (auto simp: receiveLine_def Let_def split: prod.splits sum.splits option.splits if_splits)

lemma loop_body_not_IssueNotExist: "fst (loop_body lines i s acc) \<noteq> Inl IssueNotExist"
proof (cases "activatedIssueDetector s")
  case None
  then show ?thesis
    using probe_not_IssueNotExist [of "issueDetectors s" "lines ! nat i"]
    by (auto simp: loop_body_def Let_def split: prod.splits sum.splits option.splits)
next
  case (Some k)
  then show ?thesis
    by (auto simp: loop_body_def Let_def receiveLine_def pickIssue_def isLogIndicateFinished_def
             split: prod.splits sum.splits option.splits if_splits EIssueDetectorState.splits)
qed

lemma loop_not_IssueNotExist: "fst (loop lines i s acc) \<noteq> Inl IssueNotExist"
proof (induction lines i s acc rule: loop.induct)
  case (1 lines i this issues)
  show ?case
  proof (cases "i < int (length lines)")
    case True
    obtain r s' where b: "loop_body lines i this issues = (r, s')"
      by (cases "loop_body lines i this issues")
    show ?thesis
    proof (cases r)
      case (Inl e)
      with b loop_body_not_IssueNotExist [of lines i this issues] have "e \<noteq> IssueNotExist"
        by auto
      then show ?thesis using loop_err [OF True] b Inl by simp
    next
      case (Inr c)
      obtain i' acc' where c: "c = (i', acc')" by (cases c)
      from "1.IH" [OF True b [symmetric] Inr c [symmetric]]
      show ?thesis using loop_step [OF True, of this issues i' acc' s'] b Inr c by simp
    qed
  next
    case False
    then show ?thesis by (simp add: loop_done)
  qed
qed

section \<open>The constructed scanner, line by line\<close>

lemma body_idle_match:
  "receiveLine PuertsExceptionDetector_new (lines ! nat i) = (Inr Activated, d) \<Longrightarrow>
     loop_body lines i LogScanner_new acc
       = (Inr (i, acc), \<lparr>issueDetectors = [d], activatedIssueDetector = Some 0\<rparr>)"
  by (simp add: loop_body_def LogScanner_new_def)

lemma body_active_match:
  "0 < indexOf (lines ! nat i) PUERTS_ERROR_KEYWORD \<Longrightarrow>
     loop_body lines i \<lparr>issueDetectors = [\<lparr>issue = Some y, state = Activated\<rparr>],
                         activatedIssueDetector = Some 0\<rparr> acc
       = (Inr (i - 1, acc @ [addLogLine y (lines ! nat i)]), LogScanner_new)"
  by (simp add: loop_body_def receiveLine_def isLogIndicateFinished_def pickIssue_def
        LogScanner_new_def PuertsExceptionDetector_new_def)

section \<open>Severity\<close>

text \<open>
  C9. The severity of an Issue is fixed by its constructor from the kind it is given, by
  the mapping Crash to critical, Exception to high, Error to medium; none of the writes the
  program makes to an Issue (a raw line, a stack line, the source path) touches it, and
  neither does a later assignment to the kind.
\<close>

theorem severity_fixed_at_creation:
  "severity (Issue_new t msg) = getSeverityFromType t
   \<and> getSeverityFromType Crash = ''critical''
   \<and> getSeverityFromType Exception = ''high''
   \<and> getSeverityFromType Error = ''medium''
   \<and> severity (addLogLine x line) = severity x
   \<and> severity (addStacktraceLine x frame) = severity x
   \<and> severity (x\<lparr>type := t'\<rparr>) = severity x
   \<and> severity (x\<lparr>source := p\<rparr>) = severity x"
  by (simp add: Issue_new_def addLogLine_def addStacktraceLine_def)

section \<open>The keyword at column 0\<close>

text \<open>
  C10. The detector tests \<open>indexOf > 0\<close>. A line that begins with the keyword has index 0:
  it leaves the detector as it is and is answered \<open>None\<close> by an idle detector and
  \<open>Activated\<close> by an activated one, exactly as a line without the keyword is. In general a
  line is passed over in this way if and only if the keyword's index in it is not positive.
\<close>

theorem keyword_at_column_0_ignored:
  assumes "prefix PUERTS_ERROR_KEYWORD line"
  shows "indexOf line PUERTS_ERROR_KEYWORD = 0
    \<and> receiveLine d line = (Inr (if state d = None_s then None_s else Activated), d)
    \<and> (indexOf other PUERTS_ERROR_KEYWORD = - 1 \<longrightarrow> receiveLine d other = receiveLine d line)
    \<and> ((receiveLine d l = (Inr (if state d = None_s then None_s else Activated), d))
          = (\<not> 0 < indexOf l PUERTS_ERROR_KEYWORD))"
  using indexOf_prefix [OF assms]
  by (auto simp: receiveLine_def isLogIndicateFinished_def Let_def split: option.splits)

theorem keyword_at_column_0_ignored_witness:
  "prefix PUERTS_ERROR_KEYWORD ''Puerts: Error: boom''
   \<and> indexOf ''no keyword here'' PUERTS_ERROR_KEYWORD = - 1
   \<and> receiveLine PuertsExceptionDetector_new ''Puerts: Error: boom''
        = (Inr None_s, PuertsExceptionDetector_new)
   \<and> receiveLine \<lparr>issue = Some (Issue_new Error ''m''), state = Activated\<rparr> ''Puerts: Error: boom''
        = (Inr Activated, \<lparr>issue = Some (Issue_new Error ''m''), state = Activated\<rparr>)
   \<and> receiveLine PuertsExceptionDetector_new ''no keyword here''
        = receiveLine PuertsExceptionDetector_new ''Puerts: Error: boom''"
proof -
  have p: "prefix PUERTS_ERROR_KEYWORD ''Puerts: Error: boom''"
    by (simp add: PUERTS_ERROR_KEYWORD_def)
  have n: "indexOf ''no keyword here'' PUERTS_ERROR_KEYWORD = - 1"
    by (simp add: PUERTS_ERROR_KEYWORD_def)
  from keyword_at_column_0_ignored [OF p, of PuertsExceptionDetector_new "''no keyword here''"]
       keyword_at_column_0_ignored [OF p, of "\<lparr>issue = Some (Issue_new Error ''m''), state = Activated\<rparr>"]
       p n
  show ?thesis by (simp add: PuertsExceptionDetector_new_def)
qed

section \<open>Reuse of a detector\<close>

text \<open>
  C8. After a successful \<open>pickIssue\<close> the detector is idle and owns no issue; it answers
  any line as a new detector does, and a line with the keyword activates it with a new Issue
  whose \<open>rawLogs\<close> hold that line only and whose \<open>stackTrace\<close> holds at most the stack text
  of that line: nothing of the drained Issue is in them.
\<close>

theorem pickIssue_resets_detector:
  assumes "pickIssue d = (Inr x, d')"
  shows "state d' = None_s \<and> issue d' = None
    \<and> receiveLine d' line = receiveLine PuertsExceptionDetector_new line
    \<and> (0 < indexOf line PUERTS_ERROR_KEYWORD \<longrightarrow>
         (\<exists>y. receiveLine d' line = (Inr Activated, \<lparr>issue = Some y, state = Activated\<rparr>)
              \<and> rawLogs y = [line]
              \<and> stackTrace y =
                   (if 0 \<le> indexOf line PUERTS_STACK_KEYWORD
                    then [substring line (indexOf line PUERTS_STACK_KEYWORD)] else [])
              \<and> context' y = []))"
proof -
  from assms have "d' = PuertsExceptionDetector_new"
    by (auto simp: pickIssue_def PuertsExceptionDetector_new_def split: option.splits)
  then show ?thesis
    by (simp add: PuertsExceptionDetector_new_def receiveLine_def Let_def Issue_new_def
          addLogLine_def addStacktraceLine_def)
qed

theorem pickIssue_resets_detector_witness:
  "pickIssue \<lparr>issue = Some (addLogLine (Issue_new Error ''old'') ''old line''), state = Activated\<rparr>
     = (Inr (addLogLine (Issue_new Error ''old'') ''old line''), PuertsExceptionDetector_new)
   \<and> 0 < indexOf ''[JS] Puerts: Error: again'' PUERTS_ERROR_KEYWORD
   \<and> (\<exists>y. receiveLine PuertsExceptionDetector_new ''[JS] Puerts: Error: again''
             = (Inr Activated, \<lparr>issue = Some y, state = Activated\<rparr>)
          \<and> rawLogs y = [''[JS] Puerts: Error: again''] \<and> stackTrace y = [])"
proof -
  have p: "pickIssue \<lparr>issue = Some (addLogLine (Issue_new Error ''old'') ''old line''), state = Activated\<rparr>
     = (Inr (addLogLine (Issue_new Error ''old'') ''old line''), PuertsExceptionDetector_new)"
    by (simp add: pickIssue_def PuertsExceptionDetector_new_def)
  have k: "0 < indexOf ''[JS] Puerts: Error: again'' PUERTS_ERROR_KEYWORD"
    by (simp add: PUERTS_ERROR_KEYWORD_def)
  have s: "\<not> 0 \<le> indexOf ''[JS] Puerts: Error: again'' PUERTS_STACK_KEYWORD"
    by (simp add: PUERTS_STACK_KEYWORD_def)
  from pickIssue_resets_detector [OF p, of "''[JS] Puerts: Error: again''"] p k s
  show ?thesis by (auto simp del: indexOf.simps)
qed

section \<open>pickIssue and its error\<close>

text \<open>
  C7. \<open>pickIssue\<close> throws, and throws \<open>issue not exist\<close>, exactly when the detector owns no
  issue: so it does on a new detector and on one just drained. A detector that has answered
  \<open>Finished\<close> owns an issue, so the call the loop makes right after that answer succeeds:
  no iteration of the loop and no scan, from any scanner, ends in that error.
\<close>

theorem pickIssue_raises_iff_no_issue:
  "(fst (pickIssue d) = Inl IssueNotExist) = (issue d = None)
   \<and> (\<forall>e. fst (pickIssue d) = Inl e \<longrightarrow> e = IssueNotExist)
   \<and> fst (pickIssue PuertsExceptionDetector_new) = Inl IssueNotExist
   \<and> (\<forall>x d'. pickIssue d = (Inr x, d') \<longrightarrow> fst (pickIssue d') = Inl IssueNotExist)
   \<and> (\<forall>d1. receiveLine d line = (Inr Finished, d1) \<longrightarrow> (\<exists>x d2. pickIssue d1 = (Inr x, d2)))
   \<and> fst (loop_body lines i s acc) \<noteq> Inl IssueNotExist
   \<and> fst (scanLogContent s content) \<noteq> Inl IssueNotExist"
proof -
  have "fst (scanLogContent s content) \<noteq> Inl IssueNotExist"
    by (simp add: scanLogContent_def loop_not_IssueNotExist)
  moreover have "\<forall>d1. receiveLine d line = (Inr Finished, d1) \<longrightarrow> (\<exists>x d2. pickIssue d1 = (Inr x, d2))"
    by (auto simp: receiveLine_def pickIssue_def Let_def split: if_splits option.splits)
  moreover have "(fst (pickIssue d) = Inl IssueNotExist) = (issue d = None)
   \<and> (\<forall>e. fst (pickIssue d) = Inl e \<longrightarrow> e = IssueNotExist)
   \<and> fst (pickIssue PuertsExceptionDetector_new) = Inl IssueNotExist
   \<and> (\<forall>x d'. pickIssue d = (Inr x, d') \<longrightarrow> fst (pickIssue d') = Inl IssueNotExist)"
    by (auto simp: pickIssue_def PuertsExceptionDetector_new_def split: option.splits)
  ultimately show ?thesis
    using loop_body_not_IssueNotExist [of lines i s acc] by blast
qed

theorem pickIssue_raises_iff_no_issue_witness:
  "receiveLine \<lparr>issue = Some (addLogLine (Issue_new Error ''m'') ''first''), state = Activated\<rparr>
       ''[JS] Puerts: Error: next''
     = (Inr Finished,
        \<lparr>issue = Some (addLogLine (addLogLine (Issue_new Error ''m'') ''first'')
                         ''[JS] Puerts: Error: next''),
         state = Activated\<rparr>)
   \<and> (\<exists>x d2. pickIssue
          \<lparr>issue = Some (addLogLine (addLogLine (Issue_new Error ''m'') ''first'')
                           ''[JS] Puerts: Error: next''),
           state = Activated\<rparr> = (Inr x, d2))
   \<and> pickIssue \<lparr>issue = Some (Issue_new Error ''m''), state = Activated\<rparr>
        = (Inr (Issue_new Error ''m''), PuertsExceptionDetector_new)
   \<and> fst (pickIssue PuertsExceptionDetector_new) = Inl IssueNotExist"
proof -
  have r: "receiveLine \<lparr>issue = Some (addLogLine (Issue_new Error ''m'') ''first''), state = Activated\<rparr>
       ''[JS] Puerts: Error: next''
     = (Inr Finished,
        \<lparr>issue = Some (addLogLine (addLogLine (Issue_new Error ''m'') ''first'')
                         ''[JS] Puerts: Error: next''),
         state = Activated\<rparr>)"
    by (simp add: receiveLine_def isLogIndicateFinished_def PUERTS_ERROR_KEYWORD_def)
  have p: "pickIssue \<lparr>issue = Some (Issue_new Error ''m''), state = Activated\<rparr>
        = (Inr (Issue_new Error ''m''), PuertsExceptionDetector_new)"
    by (simp add: pickIssue_def PuertsExceptionDetector_new_def)
  from pickIssue_raises_iff_no_issue
         [of "\<lparr>issue = Some (addLogLine (Issue_new Error ''m'') ''first''), state = Activated\<rparr>"
             "''[JS] Puerts: Error: next''"]
       pickIssue_raises_iff_no_issue [of "\<lparr>issue = Some (Issue_new Error ''m''), state = Activated\<rparr>"]
       r p
  show ?thesis by blast
qed

section \<open>Totality of a scan\<close>

text \<open>
  C5. From a consistent scanner, and so from the constructed one, \<open>scanLogContent\<close> returns
  an array of issues for every content and throws nothing; the scanner it leaves is
  consistent again. The loop is a total function (its termination is proved with
  \<open>loop_measure\<close>), and the cursor's standing still on \<open>Finished\<close> costs at most one
  more iteration per line: the body never runs more than twice the number of lines plus
  once.
\<close>

theorem scan_total:
  assumes "scanner_inv s"
  shows "(\<exists>issues s'. scanLogContent s content = (Inr issues, s') \<and> scanner_inv s')
    \<and> (\<forall>n c. loop_iter n (split_nl content) (0, s, []) = Some c
              \<longrightarrow> n \<le> 2 * length (split_nl content) + 1)"
proof -
  have "\<exists>issues s' i'. loop (split_nl content) 0 s [] = (Inr issues, s')
          \<and> scanner_inv s' \<and> \<not> i' < int (length (split_nl content))"
    by (rule loop_rule [where I = "\<lambda>i s acc. scanner_inv s"]) (simp_all add: assms loop_body_inv)
  then have a: "\<exists>issues s'. scanLogContent s content = (Inr issues, s') \<and> scanner_inv s'"
    by (auto simp: scanLogContent_def)
  have "n \<le> 2 * length (split_nl content) + 1"
    if "loop_iter n (split_nl content) (0, s, []) = Some c" for n c
  proof -
    obtain i' s' acc' where "c = (i', s', acc')" by (cases c)
    with that loop_iter_measure [of n "split_nl content" 0 s "[]" i' s' acc']
    have "n \<le> loop_measure (split_nl content) 0 s" by simp
    also have "\<dots> \<le> 2 * length (split_nl content) + 1"
      by (cases "activatedIssueDetector s") (simp_all add: loop_measure_def nat_mult_distrib)
    finally show ?thesis .
  qed
  with a show ?thesis by blast
qed

theorem scan_total_witness:
  "scanner_inv LogScanner_new
   \<and> (\<exists>issues s'. scanLogContent LogScanner_new
          (''[1] Puerts: Error: a'' @ CHR 0x0A # ''[2] Puerts: Error: b'') = (Inr issues, s')
        \<and> scanner_inv s')
   \<and> loop_iter 3 (split_nl (''[1] Puerts: Error: a'' @ CHR 0x0A # ''[2] Puerts: Error: b''))
        (0, LogScanner_new, []) \<noteq> None
   \<and> (3::nat) \<le> 2 * length (split_nl (''[1] Puerts: Error: a'' @ CHR 0x0A # ''[2] Puerts: Error: b'')) + 1"
proof -
  have h: "scanner_inv LogScanner_new"
    by (simp add: scanner_inv_def LogScanner_new_def idle_def PuertsExceptionDetector_new_def)
  have i: "loop_iter 3 (split_nl (''[1] Puerts: Error: a'' @ CHR 0x0A # ''[2] Puerts: Error: b''))
        (0, LogScanner_new, []) \<noteq> None"
    by code_simp
  from scan_total [OF h, of "''[1] Puerts: Error: a'' @ CHR 0x0A # ''[2] Puerts: Error: b''"] h i
  show ?thesis by auto
qed

section \<open>At most one active detector\<close>

text \<open>
  C2. From a consistent scanner, after any number of iterations of the loop at most one
  detector of the registry is in state \<open>Activated\<close>: none while the slot is empty, and the
  bound detector alone otherwise. When the registry is probed, the detector bound is the
  first that answers \<open>Activated\<close>, and the detectors after it are not offered the line.
\<close>

theorem at_most_one_active:
  assumes "scanner_inv s" and "loop_iter n lines (i, s, acc) = Some (i', s', acc')"
  shows "length (filter (\<lambda>d. getState d = Activated) (issueDetectors s')) \<le> 1
    \<and> filter (\<lambda>d. getState d = Activated) (issueDetectors s')
         = (case activatedIssueDetector s' of None \<Rightarrow> [] | Some k \<Rightarrow> [issueDetectors s' ! k])
    \<and> (\<forall>k ds'. probe (issueDetectors s') line = (Inr (Some k), ds') \<longrightarrow>
          k < length (issueDetectors s')
          \<and> fst (receiveLine (issueDetectors s' ! k) line) = Inr Activated
          \<and> (\<forall>j<k. fst (receiveLine (issueDetectors s' ! j) line) \<noteq> Inr Activated)
          \<and> drop (Suc k) ds' = drop (Suc k) (issueDetectors s'))"
proof -
  from loop_iter_inv [OF assms] have inv: "scanner_inv s'" .
  from scanner_inv_active [OF inv] have
    f: "filter (\<lambda>d. getState d = Activated) (issueDetectors s')
         = (case activatedIssueDetector s' of None \<Rightarrow> [] | Some k \<Rightarrow> [issueDetectors s' ! k])" .
  then have "length (filter (\<lambda>d. getState d = Activated) (issueDetectors s')) \<le> 1"
    by (simp split: option.splits)
  with f probe_first [of "issueDetectors s'" line] show ?thesis by blast
qed

theorem at_most_one_active_witness:
  "scanner_inv \<lparr>issueDetectors = [PuertsExceptionDetector_new, PuertsExceptionDetector_new],
                activatedIssueDetector = None\<rparr>
   \<and> loop_iter 1 [''[1] Puerts: Error: a'', ''    at f'']
        (0, \<lparr>issueDetectors = [PuertsExceptionDetector_new, PuertsExceptionDetector_new],
              activatedIssueDetector = None\<rparr>, [])
       = Some (1, \<lparr>issueDetectors =
                     [\<lparr>issue = Some \<lparr>type = Error, message = [],
                                      rawLogs = [''[1] Puerts: Error: a''], stackTrace = [],
                                      context' = [], source = [], severity = ''medium''\<rparr>,
                       state = Activated\<rparr>,
                      PuertsExceptionDetector_new],
                   activatedIssueDetector = Some 0\<rparr>, [])
   \<and> length (filter (\<lambda>d. getState d = Activated)
        [\<lparr>issue = Some \<lparr>type = Error, message = [],
                         rawLogs = [''[1] Puerts: Error: a''], stackTrace = [],
                         context' = [], source = [], severity = ''medium''\<rparr>,
          state = Activated\<rparr>,
         PuertsExceptionDetector_new]) \<le> 1"
proof -
  have h: "scanner_inv \<lparr>issueDetectors = [PuertsExceptionDetector_new, PuertsExceptionDetector_new],
                activatedIssueDetector = None\<rparr>"
    by (simp add: scanner_inv_def idle_def PuertsExceptionDetector_new_def)
  have i: "loop_iter 1 [''[1] Puerts: Error: a'', ''    at f'']
        (0, \<lparr>issueDetectors = [PuertsExceptionDetector_new, PuertsExceptionDetector_new],
              activatedIssueDetector = None\<rparr>, [])
       = Some (1, \<lparr>issueDetectors =
                     [\<lparr>issue = Some \<lparr>type = Error, message = [],
                                      rawLogs = [''[1] Puerts: Error: a''], stackTrace = [],
                                      context' = [], source = [], severity = ''medium''\<rparr>,
                       state = Activated\<rparr>,
                      PuertsExceptionDetector_new],
                   activatedIssueDetector = Some 0\<rparr>, [])"
    by code_simp
  from at_most_one_active [OF h i] h i show ?thesis by simp
qed

section \<open>Replay of the closing line\<close>

text \<open>
  C1, as stated, fails for lines that contain the keyword at column 0 only: the detector
  does not take them for its marker, and two such lines give no Issue at all.
\<close>

theorem keyword_lines_at_column_0_not_replayed:
  "scanLogContent LogScanner_new (''Puerts: Error: msg'' @ CHR 0x0A # ''Puerts: Error: msg2'')
     = (Inr [], LogScanner_new)"
  by code_simp

text \<open>
  C1, amended. A content of exactly two lines, each with the keyword at a positive index,
  scanned by the constructed scanner, gives exactly one Issue, whose \<open>rawLogs\<close> are line 1
  and line 2; line 2 also activates the detector again, and that second issue, with line 2
  alone, stays in the detector and is not in the result. The second iteration is the one
  that drains the first issue: it leaves the slot empty and the cursor on line 2, which the
  third iteration offers to the registry.
\<close>

theorem replay_two_keyword_lines:
  assumes "split_nl content = [l1, l2]"
    and "0 < indexOf l1 PUERTS_ERROR_KEYWORD" and "0 < indexOf l2 PUERTS_ERROR_KEYWORD"
  shows "\<exists>x y.
      scanLogContent LogScanner_new content
        = (Inr [x], \<lparr>issueDetectors = [\<lparr>issue = Some y, state = Activated\<rparr>],
                     activatedIssueDetector = Some 0\<rparr>)
      \<and> rawLogs x = [l1, l2] \<and> message x = getMessageFromFirstLogLine l1
      \<and> rawLogs y = [l2] \<and> message y = getMessageFromFirstLogLine l2
      \<and> loop_iter 2 [l1, l2] (0, LogScanner_new, []) = Some (1, LogScanner_new, [x])
      \<and> loop_iter 3 [l1, l2] (0, LogScanner_new, [])
           = Some (2, \<lparr>issueDetectors = [\<lparr>issue = Some y, state = Activated\<rparr>],
                        activatedIssueDetector = Some 0\<rparr>, [x])"
proof -
  define x1 where "x1 = the (issue (snd (receiveLine PuertsExceptionDetector_new l1)))"
  define y where "y = the (issue (snd (receiveLine PuertsExceptionDetector_new l2)))"
  define x where "x = addLogLine x1 l2"
  define A1 where "A1 = \<lparr>issueDetectors = [\<lparr>issue = Some x1, state = Activated\<rparr>],
                     activatedIssueDetector = Some 0\<rparr>"
  define A2 where "A2 = \<lparr>issueDetectors = [\<lparr>issue = Some y, state = Activated\<rparr>],
                     activatedIssueDetector = Some 0\<rparr>"
  have r1: "receiveLine PuertsExceptionDetector_new l1
              = (Inr Activated, \<lparr>issue = Some x1, state = Activated\<rparr>)"
    using assms(2) by (simp add: x1_def receiveLine_def PuertsExceptionDetector_new_def Let_def)
  have r2: "receiveLine PuertsExceptionDetector_new l2
              = (Inr Activated, \<lparr>issue = Some y, state = Activated\<rparr>)"
    using assms(3) by (simp add: y_def receiveLine_def PuertsExceptionDetector_new_def Let_def)
  have b0: "loop_body [l1, l2] 0 LogScanner_new acc = (Inr (0, acc), A1)" for acc
    using body_idle_match [of "[l1, l2]" 0] r1 by (simp add: A1_def)
  have b1: "loop_body [l1, l2] 1 A1 acc = (Inr (0, acc @ [x]), LogScanner_new)" for acc
    using body_active_match [of "[l1, l2]" 1 x1 acc] assms(3) by (simp add: A1_def x_def)
  have b2: "loop_body [l1, l2] 1 LogScanner_new acc = (Inr (1, acc), A2)" for acc
    using body_idle_match [of "[l1, l2]" 1] r2 by (simp add: A2_def)
  have "loop [l1, l2] 0 LogScanner_new [] = loop [l1, l2] 1 A1 []"
    using loop_step [OF _ b0, of "[]"] by simp
  also have "\<dots> = loop [l1, l2] 1 LogScanner_new [x]"
    using loop_step [OF _ b1, of "[]"] by simp
  also have "\<dots> = loop [l1, l2] 2 A2 [x]"
    using loop_step [OF _ b2, of "[x]"] by simp
  also have "\<dots> = (Inr [x], A2)"
    by (simp add: loop_done)
  finally have scan: "scanLogContent LogScanner_new content = (Inr [x], A2)"
    by (simp add: scanLogContent_def assms(1))
  have it2: "loop_iter 2 [l1, l2] (0, LogScanner_new, []) = Some (1, LogScanner_new, [x])"
    by (simp add: eval_nat_numeral b0 b1)
  have it3: "loop_iter 3 [l1, l2] (0, LogScanner_new, []) = Some (2, A2, [x])"
    by (simp add: eval_nat_numeral b0 b1 b2)
  have x: "rawLogs x = [l1, l2] \<and> message x = getMessageFromFirstLogLine l1"
    using assms(2)
    by (simp add: x_def x1_def receiveLine_def PuertsExceptionDetector_new_def Let_def
          Issue_new_def addLogLine_def addStacktraceLine_def)
  have y: "rawLogs y = [l2] \<and> message y = getMessageFromFirstLogLine l2"
    using assms(3)
    by (simp add: y_def receiveLine_def PuertsExceptionDetector_new_def Let_def
          Issue_new_def addLogLine_def addStacktraceLine_def)
  from scan it2 it3 x y show ?thesis
    unfolding A2_def by blast
qed

theorem replay_two_keyword_lines_witness:
  "split_nl (''[1] Puerts: Error: msg'' @ CHR 0x0A # ''[2] Puerts: Error: msg2'')
     = [''[1] Puerts: Error: msg'', ''[2] Puerts: Error: msg2'']
   \<and> 0 < indexOf ''[1] Puerts: Error: msg'' PUERTS_ERROR_KEYWORD
   \<and> 0 < indexOf ''[2] Puerts: Error: msg2'' PUERTS_ERROR_KEYWORD
   \<and> (\<exists>x y. scanLogContent LogScanner_new
                (''[1] Puerts: Error: msg'' @ CHR 0x0A # ''[2] Puerts: Error: msg2'')
              = (Inr [x], \<lparr>issueDetectors = [\<lparr>issue = Some y, state = Activated\<rparr>],
                           activatedIssueDetector = Some 0\<rparr>)
            \<and> rawLogs x = [''[1] Puerts: Error: msg'', ''[2] Puerts: Error: msg2'']
            \<and> rawLogs y = [''[2] Puerts: Error: msg2''])"
proof -
  have s: "split_nl (''[1] Puerts: Error: msg'' @ CHR 0x0A # ''[2] Puerts: Error: msg2'')
     = [''[1] Puerts: Error: msg'', ''[2] Puerts: Error: msg2'']"
    by simp
  have k1: "0 < indexOf ''[1] Puerts: Error: msg'' PUERTS_ERROR_KEYWORD"
    by (simp add: PUERTS_ERROR_KEYWORD_def)
  have k2: "0 < indexOf ''[2] Puerts: Error: msg2'' PUERTS_ERROR_KEYWORD"
    by (simp add: PUERTS_ERROR_KEYWORD_def)
  from replay_two_keyword_lines [OF s k1 k2] s k1 k2 show ?thesis by blast
qed

section \<open>Lines received while a block is open\<close>

text \<open>
  C3. While a detector is active, every line that does not end the block is to be appended
  to the \<open>rawLogs\<close> of its Issue, and a line with the stack-frame marker is to add its
  frame to \<open>stackTrace\<close> and to make the kind Exception; four lines, of which the first
  and the last carry the keyword and the two between are stack frames, are to give a first
  Issue of kind Exception with the two frames. \<open>receiveLine\<close> as modelled does none of
  this for a line that does not end the block: it answers \<open>Activated\<close> and leaves the
  Issue alone. The Issue returned for the four lines has kind Error, an empty \<open>stackTrace\<close>
  and the first and the last line as its \<open>rawLogs\<close>.
\<close>

theorem stack_lines_not_accumulated:
  "scanLogContent LogScanner_new
     (''[JS] Puerts: Error:(0x0x300b08e68) err A'' @ CHR 0x0A # ''    at foo.bar'' @ CHR 0x0A #
      ''    at baz.qux'' @ CHR 0x0A # ''[JS] Puerts: Error:(0x0x300b08e68) err B'')
   = (Inr [\<lparr>type = Error, message = '' err A'',
            rawLogs = [''[JS] Puerts: Error:(0x0x300b08e68) err A'',
                       ''[JS] Puerts: Error:(0x0x300b08e68) err B''],
            stackTrace = [], context' = [], source = [], severity = ''medium''\<rparr>],
      \<lparr>issueDetectors =
         [\<lparr>issue = Some \<lparr>type = Error, message = '' err B'',
             rawLogs = [''[JS] Puerts: Error:(0x0x300b08e68) err B''], stackTrace = [],
             context' = [], source = [], severity = ''medium''\<rparr>,
           state = Activated\<rparr>],
       activatedIssueDetector = Some 0\<rparr>)"
  by code_simp

section \<open>Several sources, one scanner\<close>

text \<open>
  C4. Scanning is to be isolated per log source, so that no Issue holds lines of two
  sources and nothing passes from one scan to the next. The scanner never resets its slot
  nor the issue of its detector: \<open>scanLogDirectory\<close> on the directory of two logs returns
  one Issue whose message and first raw line are of \<open>a.log\<close> and whose second raw line is
  of \<open>b.log\<close>, stamped with \<open>logs/b.log\<close> as its source. The block that \<open>a.log\<close> opens
  is still open when \<open>b.log\<close> is scanned, and the line of \<open>b.log\<close> ends it.
\<close>

theorem issue_spans_two_logs:
  "scanLogDirectory two_logs LogScanner_new ''logs''
   = ([\<lparr>type = Error, message = '' first'',
        rawLogs = [''[JS] Puerts: Error:(0x0x300b08e68) first'',
                   ''[JS] Puerts: Error:(0x0x300b08e68) second''],
        stackTrace = [], context' = [], source = ''logs/b.log'', severity = ''medium''\<rparr>],
      \<lparr>issueDetectors =
         [\<lparr>issue = Some \<lparr>type = Error, message = '' second'',
             rawLogs = [''[JS] Puerts: Error:(0x0x300b08e68) second''], stackTrace = [],
             context' = [], source = [], severity = ''medium''\<rparr>,
           state = Activated\<rparr>],
       activatedIssueDetector = Some 0\<rparr>)"
  by code_simp

section \<open>A block cut off by the end of the content\<close>

text \<open>
  C6. An issue still in progress when the lines end is to be discarded and never to appear
  in the output, and lines that open a block and do not end it are to give no Issue. The
  scanner keeps the issue: the scan of an opening line and a stack line returns no Issue
  and leaves the detector bound with the issue in progress; the scan of a second such
  content by the same scanner, lines that open a block and do not end it, returns one
  Issue, the one kept, with the two opening lines as its \<open>rawLogs\<close>.
\<close>

theorem truncated_block_kept_for_next_scan:
  "scanLogContent LogScanner_new
     (''[JS] Puerts: Error:(0x0x300b08e68) err'' @ CHR 0x0A # ''    at foo'')
   = (Inr [],
      \<lparr>issueDetectors =
         [\<lparr>issue = Some \<lparr>type = Error, message = '' err'',
             rawLogs = [''[JS] Puerts: Error:(0x0x300b08e68) err''], stackTrace = [],
             context' = [], source = [], severity = ''medium''\<rparr>,
           state = Activated\<rparr>],
       activatedIssueDetector = Some 0\<rparr>)
   \<and> scanLogContent
      \<lparr>issueDetectors =
         [\<lparr>issue = Some \<lparr>type = Error, message = '' err'',
             rawLogs = [''[JS] Puerts: Error:(0x0x300b08e68) err''], stackTrace = [],
             context' = [], source = [], severity = ''medium''\<rparr>,
           state = Activated\<rparr>],
       activatedIssueDetector = Some 0\<rparr>
     (''[JS] Puerts: Error:(0x0x300b08e68) next'' @ CHR 0x0A # ''    at bar'')
   = (Inr [\<lparr>type = Error, message = '' err'',
            rawLogs = [''[JS] Puerts: Error:(0x0x300b08e68) err'',
                       ''[JS] Puerts: Error:(0x0x300b08e68) next''],
            stackTrace = [], context' = [], source = [], severity = ''medium''\<rparr>],
      \<lparr>issueDetectors =
         [\<lparr>issue = Some \<lparr>type = Error, message = '' next'',
             rawLogs = [''[JS] Puerts: Error:(0x0x300b08e68) next''], stackTrace = [],
             context' = [], source = [], severity = ''medium''\<rparr>,
           state = Activated\<rparr>],
       activatedIssueDetector = Some 0\<rparr>)"
  by code_simp

end
